theory Spec2Isabelle
  imports Main
begin

section \<open>JavaScript string operations used by the client\<close>

text \<open>
  Strings are character lists. The operations below are the built-ins the two client
  modules call: \<^verbatim>\<open>String.prototype.split('\n')\<close>, \<^verbatim>\<open>trim\<close>, \<^verbatim>\<open>startsWith\<close>,
  \<^verbatim>\<open>slice(6)\<close> (which is \<open>drop 6\<close>), and the truthiness of an optional string, which
  decides \<^verbatim>\<open>a || b\<close> and \<^verbatim>\<open>if (a)\<close>: \<^verbatim>\<open>undefined\<close> and the empty string are falsy.
  A split always returns at least one element, so the first branch of the \<open>case\<close> in
  \<open>split_newline\<close> is never taken.

  A character is a code unit below 256. \<^verbatim>\<open>trim\<close> removes the white space and the line
  terminators of ECMAScript: U+0009, U+000A, U+000B, U+000C, U+000D, U+0020, U+00A0,
  U+1680, U+2000 to U+200A, U+2028, U+2029, U+202F, U+205F, U+3000 and U+FEFF. \<open>is_ws\<close>
  holds of all of these that are code units below 256, the no-break space U+00A0
  included; the others are not characters of the model's strings.
\<close>

definition LF :: char where
  "LF = CHR 0x0A"

fun split_newline :: "string \<Rightarrow> string list" where
  "split_newline [] = [[]]"
| "split_newline (c # cs) =
     (if c = LF then [] # split_newline cs
      else (case split_newline cs of
              [] \<Rightarrow> [[c]]
            | x # xs \<Rightarrow> (c # x) # xs))"

definition is_ws :: "char \<Rightarrow> bool" where
  "is_ws c = (c = CHR 0x09 \<or> c = CHR 0x0A \<or> c = CHR 0x0B \<or> c = CHR 0x0C
              \<or> c = CHR 0x0D \<or> c = CHR 0x20 \<or> c = CHR 0xA0)"

definition js_trim :: "string \<Rightarrow> string" where
  "js_trim s = rev (dropWhile is_ws (rev (dropWhile is_ws s)))"

definition startsWith :: "string \<Rightarrow> string \<Rightarrow> bool" where
  "startsWith s pre = (take (length pre) s = pre)"

definition truthy :: "string option \<Rightarrow> bool" where
  "truthy x = (case x of None \<Rightarrow> False | Some s \<Rightarrow> s \<noteq> [])"

definition or_else :: "string option \<Rightarrow> string \<Rightarrow> string" where
  "or_else x d = (case x of None \<Rightarrow> d | Some s \<Rightarrow> if s = [] then d else s)"

fun show_nat :: "nat \<Rightarrow> string" where
  "show_nat n =
     (if n < 10 then [''0123456789'' ! n]
      else show_nat (n div 10) @ [''0123456789'' ! (n mod 10)])"

section \<open>The phased generation hook (useRuleGeneration.ts)\<close>

subsection \<open>Data\<close>

datatype phase = Idle | RuleGeneration | FollowUpMessage | Completed

datatype rule_type = PROJECT_RULE | COMMAND | USER_RULE

record rule_metadata =
  ruleType :: rule_type
  fileName :: "string option"

record RuleGenerationState =
  isGenerating :: bool
  isStreamingRule :: bool
  isStreamingFollowUp :: bool
  currentPhase :: phase
  ruleContent :: string
  followUpContent :: string
  error :: "string option"
  metadata :: "rule_metadata option"

text \<open>
  A decoded stream chunk. The declaration of \<^verbatim>\<open>RuleGenerationStreamChunk\<close> is imported
  from \<^verbatim>\<open>@frontend/types/ai-messages\<close>; the fields are the ones \<^verbatim>\<open>generateRule\<close> reads.
  \<open>chunk_type\<close> and \<open>chunk_phase\<close> stay strings, compared with the literals of the
  \<^verbatim>\<open>switch\<close>, so a chunk of any other type or phase falls through as in the source.
\<close>

record RuleGenerationStreamChunk =
  chunk_type :: string
  chunk_phase :: "string option"
  chunk_metadata :: "rule_metadata option"
  chunk_content :: "string option"
  finalContent :: "string option"
  errorText :: "string option"

record RuleGenerationRequest =
  req_model :: "string option"
  req_provider :: "string option"

record generation_info =
  generatedAt :: nat
  model :: string
  provider :: string

record RuleGenerationResponse =
  res_ruleContent :: string
  followUpMessage :: string
  res_ruleType :: rule_type
  res_fileName :: string
  res_metadata :: generation_info

text \<open>What \<^verbatim>\<open>reader.read()\<close> delivers before \<^verbatim>\<open>done\<close>: a text fragment, or a rejection.\<close>

datatype read_result = Fragment string | ReadFailed string

record response =
  ok :: bool
  status :: nat
  statusText :: string
  body :: "read_result list option"

datatype fetch_result = FetchFailed string | Fetched response

datatype js_exception = SyntaxError | Error string

text \<open>
  The variables of one \<^verbatim>\<open>generateRule\<close> call: the hook state (updated through
  \<^verbatim>\<open>setState\<close>, each updater applied where it is queued) and the four \<^verbatim>\<open>let\<close> locals.
\<close>

record generation_loop =
  hook_state :: RuleGenerationState
  buffer :: string
  currentRuleContent :: string
  currentFollowUpContent :: string
  loop_metadata :: "rule_metadata option"

type_synonym json_parser = "string \<Rightarrow> RuleGenerationStreamChunk option"

subsection \<open>The hook's state literals and updates\<close>

definition initial_state :: RuleGenerationState where
  "initial_state =
     \<lparr>isGenerating = False, isStreamingRule = False, isStreamingFollowUp = False,
      currentPhase = Idle, ruleContent = [], followUpContent = [], error = None,
      metadata = None\<rparr>"

text \<open>Lines 59-66: the update queued when \<^verbatim>\<open>generateRule\<close> is called.\<close>

definition begin_generation :: "RuleGenerationState \<Rightarrow> RuleGenerationState" where
  "begin_generation prev =
     prev\<lparr>isGenerating := True, currentPhase := RuleGeneration, ruleContent := [],
          followUpContent := [], error := None\<rparr>"

text \<open>Lines 204-214: the outer \<^verbatim>\<open>catch\<close>, before it rethrows.\<close>

definition fail_generation :: "string \<Rightarrow> RuleGenerationState \<Rightarrow> RuleGenerationState" where
  "fail_generation errorMessage prev =
     prev\<lparr>error := Some errorMessage, isGenerating := False, isStreamingRule := False,
          isStreamingFollowUp := False, currentPhase := Idle\<rparr>"

definition loop_init :: "RuleGenerationState \<Rightarrow> generation_loop" where
  "loop_init s =
     \<lparr>hook_state = s, buffer = [], currentRuleContent = [], currentFollowUpContent = [],
      loop_metadata = None\<rparr>"

subsection \<open>The switch over a decoded chunk (lines 113-183)\<close>

text \<open>
  The result is the loop variables after the case has run, and the exception the case
  throws, if any: only the \<^verbatim>\<open>error\<close> case throws, after its \<^verbatim>\<open>setState\<close>.
\<close>

definition apply_chunk ::
  "RuleGenerationStreamChunk \<Rightarrow> generation_loop \<Rightarrow> generation_loop \<times> js_exception option" where
  "apply_chunk chunk l =
     (if chunk_type chunk = ''phase-start'' then
        (if chunk_phase chunk = Some ''rule-generation'' then
           (l\<lparr>hook_state := (hook_state l)\<lparr>isStreamingRule := True,
                  currentPhase := RuleGeneration, metadata := chunk_metadata chunk\<rparr>,
               loop_metadata := chunk_metadata chunk\<rparr>, None)
         else if chunk_phase chunk = Some ''follow-up-message'' then
           (l\<lparr>hook_state := (hook_state l)\<lparr>isStreamingRule := False,
                  isStreamingFollowUp := True, currentPhase := FollowUpMessage\<rparr>\<rparr>, None)
         else (l, None))
      else if chunk_type chunk = ''rule-content'' then
        (if truthy (chunk_content chunk) then
           (let c = currentRuleContent l @ or_else (chunk_content chunk) [] in
            (l\<lparr>currentRuleContent := c,
               hook_state := (hook_state l)\<lparr>ruleContent := c\<rparr>\<rparr>, None))
         else (l, None))
      else if chunk_type chunk = ''follow-up-content'' then
        (if truthy (chunk_content chunk) then
           (let c = currentFollowUpContent l @ or_else (chunk_content chunk) [] in
            (l\<lparr>currentFollowUpContent := c,
               hook_state := (hook_state l)\<lparr>followUpContent := c\<rparr>\<rparr>, None))
         else (l, None))
      else if chunk_type chunk = ''phase-end'' then
        (if chunk_phase chunk = Some ''rule-generation'' then
           (let c = or_else (finalContent chunk) (currentRuleContent l) in
            (l\<lparr>currentRuleContent := c,
               hook_state := (hook_state l)\<lparr>ruleContent := c, isStreamingRule := False\<rparr>\<rparr>,
             None))
         else if chunk_phase chunk = Some ''follow-up-message'' then
           (let c = or_else (finalContent chunk) (currentFollowUpContent l) in
            (l\<lparr>currentFollowUpContent := c,
               hook_state := (hook_state l)\<lparr>followUpContent := c,
                  isStreamingFollowUp := False, currentPhase := Completed,
                  isGenerating := False\<rparr>\<rparr>, None))
         else (l, None))
      else if chunk_type chunk = ''error'' then
        (let msg = or_else (errorText chunk) ''Unknown error occurred'' in
         (l\<lparr>hook_state := (hook_state l)\<lparr>error := Some msg, isGenerating := False,
                isStreamingRule := False, isStreamingFollowUp := False,
                currentPhase := Idle\<rparr>\<rparr>,
          Some (Error msg)))
      else (l, None))"

subsection \<open>One line, one fragment, the read loop\<close>

text \<open>
  Lines 107-183, the body of the inner \<^verbatim>\<open>try\<close>: \<^verbatim>\<open>JSON.parse\<close> (a parameter: \<open>None\<close> is
  its \<^verbatim>\<open>SyntaxError\<close>), then the switch. The optional \<^verbatim>\<open>onChunk\<close> observer is left out.
\<close>

definition try_chunk ::
  "json_parser \<Rightarrow> string \<Rightarrow> generation_loop \<Rightarrow> generation_loop \<times> js_exception option" where
  "try_chunk JSON_parse jsonStr l =
     (case JSON_parse jsonStr of
        None \<Rightarrow> (l, Some SyntaxError)
      | Some chunk \<Rightarrow> apply_chunk chunk l)"

text \<open>
  Lines 102-187. The \<^verbatim>\<open>catch (parseError)\<close> of line 184 encloses the whole switch: it
  receives the parser's exception and the \<^verbatim>\<open>Error\<close> thrown by the \<^verbatim>\<open>error\<close> case alike,
  logs a warning, and the \<^verbatim>\<open>for\<close> loop goes on with the next line.
\<close>

definition process_line :: "json_parser \<Rightarrow> string \<Rightarrow> generation_loop \<Rightarrow> generation_loop" where
  "process_line JSON_parse line l =
     (if js_trim line = [] then l
      else if startsWith line ''data: '' then
        (case try_chunk JSON_parse (drop 6 line) l of
           (l', None) \<Rightarrow> l'
         | (l', Some parseError) \<Rightarrow> l')
      else l)"

text \<open>
  Lines 97-99: append the fragment to the buffer, split at line feeds, pop the last
  element back into the buffer (\<^verbatim>\<open>lines.pop() || ''\<close>); the others are the lines.
\<close>

definition decode_fragment :: "string \<Rightarrow> string \<Rightarrow> string list \<times> string" where
  "decode_fragment buf fragment =
     (let lines = split_newline (buf @ fragment)
      in (butlast lines, if lines = [] then [] else last lines))"

definition process_fragment :: "json_parser \<Rightarrow> string \<Rightarrow> generation_loop \<Rightarrow> generation_loop" where
  "process_fragment JSON_parse fragment l =
     (case decode_fragment (buffer l) fragment of
        (lines, buf) \<Rightarrow> foldl (\<lambda>l' line. process_line JSON_parse line l') (l\<lparr>buffer := buf\<rparr>) lines)"

text \<open>
  Lines 93-189: \<^verbatim>\<open>while (true)\<close> over the reads of the body. The list of reads is
  finite; its end is \<^verbatim>\<open>done\<close>. A rejected read leaves the loop for the outer \<^verbatim>\<open>catch\<close>.
\<close>

fun read_loop ::
  "json_parser \<Rightarrow> read_result list \<Rightarrow> generation_loop \<Rightarrow> generation_loop \<times> string option" where
  "read_loop JSON_parse [] l = (l, None)"
| "read_loop JSON_parse (Fragment v # reads) l =
     read_loop JSON_parse reads (process_fragment JSON_parse v l)"
| "read_loop JSON_parse (ReadFailed msg # reads) l = (l, Some msg)"

subsection \<open>generateRule\<close>

text \<open>Lines 191-201; \<open>now\<close> is \<^verbatim>\<open>Date.now()\<close>.\<close>

definition build_result ::
  "nat \<Rightarrow> RuleGenerationRequest \<Rightarrow> generation_loop \<Rightarrow> RuleGenerationResponse" where
  "build_result now request l =
     \<lparr>res_ruleContent = currentRuleContent l,
      followUpMessage = currentFollowUpContent l,
      res_ruleType = (case loop_metadata l of None \<Rightarrow> PROJECT_RULE | Some m \<Rightarrow> ruleType m),
      res_fileName = (case loop_metadata l of None \<Rightarrow> ''generated-rule''
                      | Some m \<Rightarrow> or_else (fileName m) ''generated-rule''),
      res_metadata = \<lparr>generatedAt = now,
                      model = or_else (req_model request) ''llama-3.3-70b-versatile'',
                      provider = or_else (req_provider request) ''groq''\<rparr>\<rparr>"

text \<open>
  The whole call: the final hook state, and \<open>Inr\<close> the resolved response or \<open>Inl\<close> the
  message of the error the promise rejects with. A rejection of \<^verbatim>\<open>fetch\<close> or of a read
  is an \<^verbatim>\<open>Error\<close> instance, given by its message.
\<close>

definition generateRule ::
  "json_parser \<Rightarrow> nat \<Rightarrow> RuleGenerationRequest \<Rightarrow> fetch_result \<Rightarrow> RuleGenerationState
     \<Rightarrow> RuleGenerationState \<times> (string + RuleGenerationResponse)" where
  "generateRule JSON_parse now request fetched prev =
     (let s0 = begin_generation prev in
      case fetched of
        FetchFailed msg \<Rightarrow> (fail_generation msg s0, Inl msg)
      | Fetched r \<Rightarrow>
          if \<not> ok r then
            (let msg = ''HTTP '' @ show_nat (status r) @ '': '' @ statusText r
             in (fail_generation msg s0, Inl msg))
          else
            (case body r of
               None \<Rightarrow> (fail_generation ''Response body is null'' s0, Inl ''Response body is null'')
             | Some reads \<Rightarrow>
                 (case read_loop JSON_parse reads (loop_init s0) of
                    (l, Some msg) \<Rightarrow> (fail_generation msg (hook_state l), Inl msg)
                  | (l, None) \<Rightarrow> (hook_state l, Inr (build_result now request l)))))"

subsection \<open>The chunk decoder and the reducer, iterated\<close>

text \<open>
  \<open>decode_all\<close> iterates \<open>decode_fragment\<close> over the fragments of a stream, as the loop
  does: all the lines handed to the \<^verbatim>\<open>for\<close> loop, in order, and the buffer left at
  \<^verbatim>\<open>done\<close>. \<open>process_lines\<close> is the \<^verbatim>\<open>for\<close> loop over given lines, and \<open>apply_chunks\<close>
  the switch over given chunks, with the inner \<^verbatim>\<open>catch\<close> around each.
\<close>

fun decode_all :: "string \<Rightarrow> string list \<Rightarrow> string list \<times> string" where
  "decode_all buf [] = ([], buf)"
| "decode_all buf (fragment # fragments) =
     (case decode_fragment buf fragment of
        (lines, buf') \<Rightarrow>
          (case decode_all buf' fragments of (later, rest) \<Rightarrow> (lines @ later, rest)))"

definition process_lines ::
  "json_parser \<Rightarrow> string list \<Rightarrow> generation_loop \<Rightarrow> generation_loop" where
  "process_lines JSON_parse lines l =
     foldl (\<lambda>l' line. process_line JSON_parse line l') l lines"

definition apply_chunks ::
  "RuleGenerationStreamChunk list \<Rightarrow> generation_loop \<Rightarrow> generation_loop" where
  "apply_chunks chunks l = foldl (\<lambda>l' chunk. fst (apply_chunk chunk l')) l chunks"

text \<open>
  The chunk that a line hands to the switch, if any (lines 102-108): none for a blank
  line, for a line without the \<^verbatim>\<open>data:\<close> prefix and for a JSON text that the parser
  rejects. \<open>stream_chunks\<close> are the chunks of all the lines of a stream, in order.
\<close>

definition line_chunk :: "json_parser \<Rightarrow> string \<Rightarrow> RuleGenerationStreamChunk option" where
  "line_chunk JSON_parse line =
     (if js_trim line = [] then None
      else if startsWith line ''data: '' then JSON_parse (drop 6 line)
      else None)"

definition stream_chunks :: "json_parser \<Rightarrow> string list \<Rightarrow> RuleGenerationStreamChunk list" where
  "stream_chunks JSON_parse fragments =
     List.map_filter (line_chunk JSON_parse) (fst (decode_all [] fragments))"

text \<open>
  A terminal event of a stream: an \<^verbatim>\<open>error\<close>, a \<^verbatim>\<open>done\<close>, or the \<^verbatim>\<open>phase-end\<close> of the
  follow-up phase.
\<close>

definition is_terminal :: "RuleGenerationStreamChunk \<Rightarrow> bool" where
  "is_terminal c =
     (chunk_type c = ''error'' \<or> chunk_type c = ''done''
      \<or> (chunk_type c = ''phase-end'' \<and> chunk_phase c = Some ''follow-up-message''))"

text \<open>
  The content of a phase after a sequence of events, in the words of the reducer's
  contract: it starts empty, a content event of the phase appends its content, and the
  \<^verbatim>\<open>phase-end\<close> of the phase replaces it by the final content when that is supplied and
  not empty. \<open>accumulated ''rule-content'' ''rule-generation''\<close> is the rule content,
  \<open>accumulated ''follow-up-content'' ''follow-up-message''\<close> the follow-up message.
\<close>

definition accumulate ::
  "string \<Rightarrow> string \<Rightarrow> string \<Rightarrow> RuleGenerationStreamChunk \<Rightarrow> string" where
  "accumulate content_type ph acc c =
     (if chunk_type c = content_type then
        (case chunk_content c of None \<Rightarrow> acc | Some t \<Rightarrow> acc @ t)
      else if chunk_type c = ''phase-end'' \<and> chunk_phase c = Some ph then
        (case finalContent c of
           None \<Rightarrow> acc
         | Some final \<Rightarrow> if final = [] then acc else final)
      else acc)"

definition accumulated ::
  "string \<Rightarrow> string \<Rightarrow> RuleGenerationStreamChunk list \<Rightarrow> string" where
  "accumulated content_type ph cs = foldl (accumulate content_type ph) [] cs"

text \<open>A successful response whose body delivers the given fragments and then ends.\<close>

definition streamed :: "string list \<Rightarrow> fetch_result" where
  "streamed fragments =
     Fetched \<lparr>ok = True, status = 200, statusText = ''OK'',
              body = Some (map Fragment fragments)\<rparr>"

text \<open>
  A parser for concrete runs: it decodes the JSON texts of the table to the chunks
  written beside them, and rejects every other text.
\<close>

definition parse_table ::
  "(string \<times> RuleGenerationStreamChunk) list \<Rightarrow> json_parser" where
  "parse_table table = map_of table"

definition chunk_of_type :: "string \<Rightarrow> RuleGenerationStreamChunk" where
  "chunk_of_type t =
     \<lparr>chunk_type = t, chunk_phase = None, chunk_metadata = None, chunk_content = None,
      finalContent = None, errorText = None\<rparr>"

text \<open>Chunks of the four content-bearing shapes, for concrete runs.\<close>

definition rule_content_chunk :: "string \<Rightarrow> RuleGenerationStreamChunk" where
  "rule_content_chunk t = (chunk_of_type ''rule-content'')\<lparr>chunk_content := Some t\<rparr>"

definition follow_up_content_chunk :: "string \<Rightarrow> RuleGenerationStreamChunk" where
  "follow_up_content_chunk t = (chunk_of_type ''follow-up-content'')\<lparr>chunk_content := Some t\<rparr>"

definition phase_start_chunk ::
  "string \<Rightarrow> rule_metadata option \<Rightarrow> RuleGenerationStreamChunk" where
  "phase_start_chunk ph md =
     (chunk_of_type ''phase-start'')\<lparr>chunk_phase := Some ph, chunk_metadata := md\<rparr>"

definition phase_end_chunk :: "string \<Rightarrow> string option \<Rightarrow> RuleGenerationStreamChunk" where
  "phase_end_chunk ph final =
     (chunk_of_type ''phase-end'')\<lparr>chunk_phase := Some ph, finalContent := final\<rparr>"

definition error_chunk :: "string \<Rightarrow> RuleGenerationStreamChunk" where
  "error_chunk t = (chunk_of_type ''error'')\<lparr>errorText := Some t\<rparr>"

definition no_options :: RuleGenerationRequest where
  "no_options = \<lparr>req_model = None, req_provider = None\<rparr>"

subsection \<open>The producer's phase state machine\<close>

text \<open>
  Modelled from the spec: the states of the server-side producer of the phased events,
  which is not among the sources: Idle, RuleGeneration, FollowUp, Completed and Errored.
  \<open>PRuleEnded\<close> is the point between the two events that the transition from
  RuleGeneration to FollowUp emits.
\<close>

datatype producer_state =
  PIdle | PRuleGeneration | PRuleEnded | PFollowUp | PCompleted | PErrored

text \<open>
  Modelled from the spec: the producer's transitions, one emitted event at a time.
  Idle emits \<^verbatim>\<open>phase-start(rule-generation)\<close> and enters RuleGeneration, which emits
  \<^verbatim>\<open>rule-content\<close> events; it leaves for FollowUp by emitting
  \<^verbatim>\<open>phase-end(rule-generation)\<close> immediately followed by
  \<^verbatim>\<open>phase-start(follow-up-message)\<close>; FollowUp emits \<^verbatim>\<open>follow-up-content\<close> events and
  ends with \<^verbatim>\<open>phase-end(follow-up-message)\<close> in Completed. From any non-terminal state
  (the point between the two events included) an \<^verbatim>\<open>error\<close> event leads to Errored, and
  no event follows it.
\<close>

definition producer_step ::
  "producer_state \<Rightarrow> RuleGenerationStreamChunk \<Rightarrow> producer_state option" where
  "producer_step q c =
     (if q = PCompleted \<or> q = PErrored then None
      else if chunk_type c = ''error'' then Some PErrored
      else if q = PIdle \<and> chunk_type c = ''phase-start''
              \<and> chunk_phase c = Some ''rule-generation'' then Some PRuleGeneration
      else if q = PRuleGeneration \<and> chunk_type c = ''rule-content'' then Some PRuleGeneration
      else if q = PRuleGeneration \<and> chunk_type c = ''phase-end''
              \<and> chunk_phase c = Some ''rule-generation'' then Some PRuleEnded
      else if q = PRuleEnded \<and> chunk_type c = ''phase-start''
              \<and> chunk_phase c = Some ''follow-up-message'' then Some PFollowUp
      else if q = PFollowUp \<and> chunk_type c = ''follow-up-content'' then Some PFollowUp
      else if q = PFollowUp \<and> chunk_type c = ''phase-end''
              \<and> chunk_phase c = Some ''follow-up-message'' then Some PCompleted
      else None)"

fun producer_run ::
  "producer_state \<Rightarrow> RuleGenerationStreamChunk list \<Rightarrow> producer_state option" where
  "producer_run q [] = Some q"
| "producer_run q (c # cs) =
     (case producer_step q c of None \<Rightarrow> None | Some q' \<Rightarrow> producer_run q' cs)"

text \<open>An event sequence the producer can emit, in full or cut short.\<close>

definition producer_valid :: "RuleGenerationStreamChunk list \<Rightarrow> bool" where
  "producer_valid cs = (producer_run PIdle cs \<noteq> None)"

text \<open>The six events of a complete run: both phases, each started, fed and ended.\<close>

definition complete_run :: "RuleGenerationStreamChunk list" where
  "complete_run =
     [phase_start_chunk ''rule-generation'' (Some \<lparr>ruleType = PROJECT_RULE, fileName = None\<rparr>),
      rule_content_chunk ''# Title'',
      phase_end_chunk ''rule-generation'' (Some ''# Title ## Done''),
      phase_start_chunk ''follow-up-message'' None,
      follow_up_content_chunk ''All set!'',
      phase_end_chunk ''follow-up-message'' (Some ''All set!'')]"

text \<open>
  What the producer's state says about the hook state once the events emitted so far
  have been applied: which streaming flag is set, and the phase during the follow-up.
\<close>

definition coupled :: "producer_state \<Rightarrow> RuleGenerationState \<Rightarrow> bool" where
  "coupled q s =
     (case q of
        PRuleGeneration \<Rightarrow> isStreamingRule s \<and> \<not> isStreamingFollowUp s
      | PFollowUp \<Rightarrow>
          \<not> isStreamingRule s \<and> isStreamingFollowUp s \<and> currentPhase s = FollowUpMessage
      | _ \<Rightarrow> \<not> isStreamingRule s \<and> \<not> isStreamingFollowUp s)"

section \<open>The chat panel (AIChatPanel)\<close>

subsection \<open>Data\<close>

datatype part_state = Streaming | Done

text \<open>
  A message part: a text part with its text and its optional \<^verbatim>\<open>state\<close>, or a part of
  any other type.
\<close>

datatype ui_part = TextPart string "part_state option" | OtherPart

datatype role = System | User | Assistant

record ui_message =
  msg_id :: string
  msg_role :: role
  msg_parts :: "ui_part list option"
  msg_content :: "string option"

record event_payload =
  payload_id :: "string option"
  payload_rule_type :: "string option"
  payload_filename :: "string option"
  payload_content :: "string option"
  payload_message :: "string option"

record StreamingEvent =
  event :: string
  payload :: "event_payload option"

text \<open>The calls made to the optional callback props, in order.\<close>

datatype callback =
  OnRuleGenerationStart event_payload
  | OnRuleGenerationUpdate string
  | OnRuleGenerationEnd
  | OnClarify event_payload

text \<open>
  The component's state and refs that the event path reads or writes; \<open>panel_ruleContent\<close>
  is the state variable \<^verbatim>\<open>ruleContent\<close>.
\<close>

record panel =
  isGeneratingRules :: bool
  panel_ruleContent :: string
  eventOnlyMessageIds :: "string set"
  pendingEvents :: "StreamingEvent list"
  processedMessageIds :: "string set"
  calls :: "callback list"

type_synonym event_parser = "string \<Rightarrow> StreamingEvent option"

subsection \<open>handleStreamingEvent (lines 296-337)\<close>

text \<open>
  The callback closes over \<^verbatim>\<open>isGeneratingRules\<close> and \<^verbatim>\<open>ruleContent\<close> of the render that
  created it: \<open>captured\<close> holds these two values. The setters queue updates of the state,
  applied here to \<open>ps\<close> in the order of the calls.
\<close>

definition event_content :: "StreamingEvent \<Rightarrow> string" where
  "event_content ev =
     (case payload ev of None \<Rightarrow> [] | Some pl \<Rightarrow> or_else (payload_content pl) [])"

definition handleStreamingEvent :: "bool \<times> string \<Rightarrow> StreamingEvent \<Rightarrow> panel \<Rightarrow> panel" where
  "handleStreamingEvent captured ev ps =
     (if event ev = ''meta'' then
        ps\<lparr>isGeneratingRules := True, panel_ruleContent := [],
           calls := calls ps @ (case payload ev of None \<Rightarrow> []
                                | Some pl \<Rightarrow> [OnRuleGenerationStart pl])\<rparr>
      else if event ev = ''chunk'' then
        (if fst captured then
           ps\<lparr>panel_ruleContent := panel_ruleContent ps @ event_content ev,
              calls := calls ps @ [OnRuleGenerationUpdate (snd captured @ event_content ev)]\<rparr>
         else ps)
      else if event ev = ''done'' then
        ps\<lparr>isGeneratingRules := False, calls := calls ps @ [OnRuleGenerationEnd]\<rparr>
      else if event ev = ''error'' then
        ps\<lparr>isGeneratingRules := False, calls := calls ps @ [OnRuleGenerationEnd]\<rparr>
      else if event ev = ''clarify'' then
        ps\<lparr>isGeneratingRules := False,
           calls := calls ps @ [OnRuleGenerationEnd]
                    @ (case payload ev of None \<Rightarrow> [] | Some pl \<Rightarrow> [OnClarify pl])\<rparr>
      else ps)"

subsection \<open>The message monitor (lines 340-468)\<close>

definition isStreaming :: "ui_message \<Rightarrow> bool" where
  "isStreaming m =
     (case msg_parts m of
        None \<Rightarrow> False
      | Some parts \<Rightarrow>
          list_ex (\<lambda>part. case part of TextPart t st \<Rightarrow> st = Some Streaming
                          | OtherPart \<Rightarrow> False) parts)"

definition isDone :: "ui_message \<Rightarrow> bool" where
  "isDone m =
     (case msg_parts m of
        None \<Rightarrow> False
      | Some parts \<Rightarrow>
          list_all (\<lambda>part. case part of TextPart t st \<Rightarrow> st = Some Done
                           | OtherPart \<Rightarrow> True) parts)"

definition is_valid_event :: "StreamingEvent \<Rightarrow> bool" where
  "is_valid_event ev =
     (event ev \<noteq> [] \<and>
      event ev \<in> set [''meta'', ''chunk'', ''progress'', ''file'', ''done'', ''error'',
                        ''clarify''])"

text \<open>
  Lines 430-455, one line of a text part: trim, skip a blank line, \<^verbatim>\<open>JSON.parse\<close> (a
  parameter; \<open>None\<close> is its exception, caught and logged at line 453), then the check
  of the event name. The result is what the line pushes to \<^verbatim>\<open>pendingEventsRef\<close>.
\<close>

definition parse_line :: "event_parser \<Rightarrow> string \<Rightarrow> StreamingEvent list" where
  "parse_line JSON_parse line =
     (let trimmedLine = js_trim line in
      if trimmedLine = [] then []
      else (case JSON_parse trimmedLine of
              None \<Rightarrow> []
            | Some ev \<Rightarrow> if is_valid_event ev then [ev] else []))"

text \<open>Lines 425-457, one part.\<close>

definition parse_part :: "event_parser \<Rightarrow> ui_part \<Rightarrow> StreamingEvent list" where
  "parse_part JSON_parse part =
     (case part of
        TextPart t st \<Rightarrow>
          if t \<noteq> [] then concat (map (parse_line JSON_parse) (split_newline t)) else []
      | OtherPart \<Rightarrow> [])"

text \<open>Lines 393-414, the legacy \<^verbatim>\<open>content\<close> property of the message.\<close>

definition parse_message_content :: "event_parser \<Rightarrow> string option \<Rightarrow> StreamingEvent list" where
  "parse_message_content JSON_parse messageContent =
     (if truthy messageContent then
        (case JSON_parse (js_trim (or_else messageContent [])) of
           None \<Rightarrow> []
         | Some ev \<Rightarrow> if is_valid_event ev then [ev] else [])
      else [])"

definition parse_message :: "event_parser \<Rightarrow> ui_message \<Rightarrow> StreamingEvent list" where
  "parse_message JSON_parse m =
     parse_message_content JSON_parse (msg_content m)
     @ (case msg_parts m of None \<Rightarrow> []
        | Some parts \<Rightarrow> concat (map (parse_part JSON_parse) parts))"

text \<open>
  The effect itself, on the last chat message: the early returns of lines 349, 365 and
  371, the recording of the id at line 376, the return of line 384, then the parsing and
  the marking of an event-only message.
\<close>

definition monitor_messages :: "event_parser \<Rightarrow> ui_message list \<Rightarrow> panel \<Rightarrow> panel" where
  "monitor_messages JSON_parse chatMessages ps =
     (if chatMessages = [] then ps
      else
        (let lastMessage = last chatMessages in
         if msg_role lastMessage \<noteq> Assistant then ps
         else if \<not> isDone lastMessage then ps
         else if msg_id lastMessage \<in> processedMessageIds ps then ps
         else
           (let ps1 = ps\<lparr>processedMessageIds :=
                            insert (msg_id lastMessage) (processedMessageIds ps)\<rparr>
            in case msg_parts lastMessage of
                 None \<Rightarrow> ps1
               | Some parts \<Rightarrow>
                   (let events = parse_message JSON_parse lastMessage in
                    ps1\<lparr>pendingEvents := pendingEvents ps1 @ events,
                        eventOnlyMessageIds :=
                          (if events \<noteq> [] then
                             insert (msg_id lastMessage) (eventOnlyMessageIds ps1)
                           else eventOnlyMessageIds ps1)\<rparr>))))"

subsection \<open>The event processor (lines 471-491) and a render\<close>

text \<open>
  The pending events are taken from the ref and handled, in order, by the
  \<^verbatim>\<open>handleStreamingEvent\<close> of the current render, which captured the state of that render.
\<close>

definition process_pending :: "panel \<Rightarrow> panel" where
  "process_pending ps =
     (if pendingEvents ps \<noteq> [] then
        foldl (\<lambda>s ev. handleStreamingEvent (isGeneratingRules ps, panel_ruleContent ps) ev s)
          (ps\<lparr>pendingEvents := []\<rparr>) (pendingEvents ps)
      else ps)"

text \<open>A render after \<^verbatim>\<open>chatMessages\<close> changed runs both effects, in the order they are declared.\<close>

definition render :: "event_parser \<Rightarrow> ui_message list \<Rightarrow> panel \<Rightarrow> panel" where
  "render JSON_parse chatMessages ps = process_pending (monitor_messages JSON_parse chatMessages ps)"

definition renders :: "event_parser \<Rightarrow> ui_message list list \<Rightarrow> panel \<Rightarrow> panel" where
  "renders JSON_parse snapshots ps =
     foldl (\<lambda>s chatMessages. render JSON_parse chatMessages s) ps snapshots"

definition monitor_all :: "event_parser \<Rightarrow> ui_message list list \<Rightarrow> panel \<Rightarrow> panel" where
  "monitor_all JSON_parse snapshots ps =
     foldl (\<lambda>s chatMessages. monitor_messages JSON_parse chatMessages s) ps snapshots"

text \<open>
  A parser for concrete runs of the panel, and an assistant message of one text part.
\<close>

definition event_table :: "(string \<times> StreamingEvent) list \<Rightarrow> event_parser" where
  "event_table table = map_of table"

definition chunk_event :: "string \<Rightarrow> StreamingEvent" where
  "chunk_event t =
     \<lparr>event = ''chunk'',
      payload = Some \<lparr>payload_id = None, payload_rule_type = None, payload_filename = None,
                       payload_content = Some t, payload_message = None\<rparr>\<rparr>"

definition text_message :: "string \<Rightarrow> string \<Rightarrow> part_state \<Rightarrow> ui_message" where
  "text_message i t st =
     \<lparr>msg_id = i, msg_role = Assistant, msg_parts = Some [TextPart t (Some st)],
      msg_content = None\<rparr>"

text \<open>An assistant message with the given parts, and an event without a payload.\<close>

definition assistant_message :: "string \<Rightarrow> ui_part list \<Rightarrow> ui_message" where
  "assistant_message i parts =
     \<lparr>msg_id = i, msg_role = Assistant, msg_parts = Some parts, msg_content = None\<rparr>"

definition bare_event :: "string \<Rightarrow> StreamingEvent" where
  "bare_event name = \<lparr>event = name, payload = None\<rparr>"

definition initial_panel :: panel where
  "initial_panel =
     \<lparr>isGeneratingRules = False, panel_ruleContent = [], eventOnlyMessageIds = {},
      pendingEvents = [], processedMessageIds = {}, calls = []\<rparr>"

section \<open>Properties of the chunk decoder\<close>

lemma split_newline_nonempty [simp]: "split_newline s \<noteq> []"
  by (induction s) (auto split: list.splits)

lemma split_newline_append:
  "split_newline (a @ b) = butlast (split_newline a) @ split_newline (last (split_newline a) @ b)"
proof (induction a)
  case Nil
  show ?case by simp
next
  case (Cons c cs)
  show ?case
  proof (cases "c = LF")
    case True
    then show ?thesis using Cons by simp
  next
    case False
    obtain x xs where sp: "split_newline cs = x # xs"
      by (cases "split_newline cs") auto
    show ?thesis
    proof (cases xs)
      case Nil
      with sp False Cons show ?thesis by simp
    next
      case (Cons y ys)
      with sp False Cons.IH show ?thesis by simp
    qed
  qed
qed

lemma split_newline_no_LF: "l \<in> set (split_newline s) \<Longrightarrow> LF \<notin> set l"
proof (induction s arbitrary: l)
  case Nil
  then show ?case by simp
next
  case (Cons c cs)
  obtain x xs where sp: "split_newline cs = x # xs"
    by (cases "split_newline cs") auto
  with Cons show ?case by (auto split: if_splits)
qed

lemma split_newline_rejoin:
  "concat (map (\<lambda>l. l @ [LF]) (butlast (split_newline s))) @ last (split_newline s) = s"
proof (induction s)
  case Nil
  show ?case by simp
next
  case (Cons c cs)
  obtain x xs where sp: "split_newline cs = x # xs"
    by (cases "split_newline cs") auto
  with Cons show ?case by (cases xs) auto
qed

lemma split_newline_single: "LF \<notin> set s \<Longrightarrow> split_newline s = [s]"
  by (induction s) auto


lemma decode_all_split:
  "LF \<notin> set buf \<Longrightarrow> decode_all buf fs =
     (butlast (split_newline (buf @ concat fs)), last (split_newline (buf @ concat fs)))"
proof (induction fs arbitrary: buf)
  case Nil
  then show ?case by (simp add: split_newline_single)
next
  case (Cons f fs)
  have sp: "split_newline ((buf @ f) @ concat fs) =
          butlast (split_newline (buf @ f))
          @ split_newline (last (split_newline (buf @ f)) @ concat fs)"
    by (rule split_newline_append)
  have "LF \<notin> set (last (split_newline (buf @ f)))"
    by (rule split_newline_no_LF [of _ "buf @ f"]) simp
  from Cons.IH [OF this] sp show ?case
    by (simp add: decode_fragment_def butlast_append Let_def)
qed

lemma apply_chunk_buffer:
  "apply_chunk c (l\<lparr>buffer := b\<rparr>) =
     (fst (apply_chunk c l)\<lparr>buffer := b\<rparr>, snd (apply_chunk c l))"
  by (simp add: apply_chunk_def Let_def)

lemma process_line_buffer:
  "process_line p line (l\<lparr>buffer := b\<rparr>) = (process_line p line l)\<lparr>buffer := b\<rparr>"
  by (simp add: process_line_def try_chunk_def apply_chunk_buffer
      split: option.splits prod.splits)

lemma process_lines_buffer:
  "process_lines p lines (l\<lparr>buffer := b\<rparr>) = (process_lines p lines l)\<lparr>buffer := b\<rparr>"
  unfolding process_lines_def
  by (induction lines arbitrary: l) (simp_all add: process_line_buffer)

lemma process_lines_append:
  "process_lines p (xs @ ys) l = process_lines p ys (process_lines p xs l)"
  by (simp add: process_lines_def)

lemma read_loop_fragments:
  "read_loop p (map Fragment fs) l =
     ((process_lines p (fst (decode_all (buffer l) fs)) l)\<lparr>buffer := snd (decode_all (buffer l) fs)\<rparr>,
      None)"
proof (induction fs arbitrary: l)
  case Nil
  show ?case by (simp add: process_lines_def)
next
  case (Cons f fs)
  show ?case
    by (simp add: Cons.IH process_fragment_def process_lines_append process_lines_buffer
        process_lines_def [symmetric] split: prod.splits)
qed

lemma build_result_buffer: "build_result now req (l\<lparr>buffer := b\<rparr>) = build_result now req l"
  by (simp add: build_result_def)

lemma generateRule_streamed:
  "generateRule p now req (streamed fs) prev =
     (hook_state (process_lines p (fst (decode_all [] fs)) (loop_init (begin_generation prev))),
      Inr (build_result now req
             (process_lines p (fst (decode_all [] fs)) (loop_init (begin_generation prev)))))"
proof -
  have "buffer (loop_init (begin_generation prev)) = []"
    by (simp add: loop_init_def)
  then show ?thesis
    by (simp add: generateRule_def streamed_def read_loop_fragments build_result_buffer Let_def)
qed

text \<open>
  Claim C6. For every sequence of text fragments read from the body: the lines the
  decoder hands on, each followed by a line feed, and then the buffer left at the end,
  spell exactly the text received; no line and no left-over buffer contains a line
  feed, so the lines are the complete newline-terminated lines, in order. They do not
  depend on where the fragments were cut (a line split across two fragments comes out
  once, reassembled). The loop handles exactly these lines, and the call's result is
  computed from them alone: the unterminated rest in the buffer is discarded.
\<close>

theorem chunk_decoder_complete_lines:
  "concat (map (\<lambda>l. l @ [LF]) (fst (decode_all [] fs))) @ snd (decode_all [] fs) = concat fs
   \<and> (\<forall>l \<in> set (fst (decode_all [] fs)). LF \<notin> set l)
   \<and> LF \<notin> set (snd (decode_all [] fs))
   \<and> decode_all [] fs = decode_all [] [concat fs]
   \<and> read_loop p (map Fragment fs) (loop_init s) =
       ((process_lines p (fst (decode_all [] fs)) (loop_init s))
          \<lparr>buffer := snd (decode_all [] fs)\<rparr>, None)
   \<and> snd (generateRule p now req (streamed fs) prev) =
       Inr (build_result now req
              (process_lines p (fst (decode_all [] fs)) (loop_init (begin_generation prev))))"
proof -
  have d: "decode_all [] fs =
      (butlast (split_newline (concat fs)), last (split_newline (concat fs)))"
    using decode_all_split [of "[]" fs] by simp
  have "concat (map (\<lambda>l. l @ [LF]) (fst (decode_all [] fs))) @ snd (decode_all [] fs)
        = concat fs"
    by (simp add: d split_newline_rejoin)
  moreover have "\<forall>l \<in> set (fst (decode_all [] fs)). LF \<notin> set l"
    by (auto simp: d dest: in_set_butlastD split_newline_no_LF)
  moreover have "LF \<notin> set (snd (decode_all [] fs))"
    unfolding d by (rule split_newline_no_LF [of _ "concat fs"]) simp
  moreover have "decode_all [] fs = decode_all [] [concat fs]"
    using decode_all_split [of "[]" "[concat fs]"] by (simp add: d)
  moreover have "read_loop p (map Fragment fs) (loop_init s) =
       ((process_lines p (fst (decode_all [] fs)) (loop_init s))
          \<lparr>buffer := snd (decode_all [] fs)\<rparr>, None)"
    using read_loop_fragments [of p fs "loop_init s"] by (simp add: loop_init_def)
  moreover have "snd (generateRule p now req (streamed fs) prev) =
       Inr (build_result now req
              (process_lines p (fst (decode_all [] fs)) (loop_init (begin_generation prev))))"
    by (simp add: generateRule_streamed)
  ultimately show ?thesis by blast
qed

text \<open>The two fragments of the line-reassembly example give two lines and an empty buffer.\<close>

lemma decode_example:
  \<open>decode_all [] [''{"event":"meta"}'' @ [LF] @ ''{"eve'',
                  ''nt":"chunk","payload":{"content":"hi"}}'' @ [LF]]
   = ([''{"event":"meta"}'', ''{"event":"chunk","payload":{"content":"hi"}}''], [])\<close>
  by (simp add: decode_fragment_def LF_def)

theorem chunk_decoder_complete_lines_witness:
  \<open>fst (decode_all [] [''{"event":"meta"}'' @ [LF] @ ''{"eve'',
                        ''nt":"chunk","payload":{"content":"hi"}}'' @ [LF]])
     = [''{"event":"meta"}'', ''{"event":"chunk","payload":{"content":"hi"}}'']
   \<and> LF \<notin> set ''{"event":"meta"}''
   \<and> LF \<notin> set ''{"event":"chunk","payload":{"content":"hi"}}''
   \<and> snd (decode_all [] [''{"event":"meta"}'' @ [LF] @ ''{"eve'',
                        ''nt":"chunk","payload":{"content":"hi"}}'' @ [LF]]) = []\<close>
  using chunk_decoder_complete_lines
    [of \<open>[''{"event":"meta"}'' @ [LF] @ ''{"eve'',
          ''nt":"chunk","payload":{"content":"hi"}}'' @ [LF]]\<close>]
  by (simp add: decode_fragment_def LF_def)

section \<open>Properties of the reducer\<close>

lemma apply_chunk_in_step:
  "ruleContent (hook_state l) = currentRuleContent l \<and>
   followUpContent (hook_state l) = currentFollowUpContent l \<Longrightarrow>
   ruleContent (hook_state (fst (apply_chunk c l))) = currentRuleContent (fst (apply_chunk c l)) \<and>
   followUpContent (hook_state (fst (apply_chunk c l))) =
     currentFollowUpContent (fst (apply_chunk c l))"
  by (simp add: apply_chunk_def Let_def)

lemma process_line_cases:
  "process_line p line l = l \<or> (\<exists>c. process_line p line l = fst (apply_chunk c l))"
proof (cases "js_trim line \<noteq> [] \<and> startsWith line ''data: ''")
  case False
  then show ?thesis by (auto simp: process_line_def)
next
  case True
  show ?thesis
  proof (cases "p (drop 6 line)")
    case None
    with True show ?thesis by (simp add: process_line_def try_chunk_def)
  next
    case (Some c)
    with True have "process_line p line l = fst (apply_chunk c l)"
      by (simp add: process_line_def try_chunk_def split: prod.splits option.splits)
    then show ?thesis by blast
  qed
qed

lemma process_line_in_step:
  assumes "ruleContent (hook_state l) = currentRuleContent l \<and>
           followUpContent (hook_state l) = currentFollowUpContent l"
  shows "ruleContent (hook_state (process_line p line l)) =
           currentRuleContent (process_line p line l) \<and>
         followUpContent (hook_state (process_line p line l)) =
           currentFollowUpContent (process_line p line l)"
  using process_line_cases [of p line l] apply_chunk_in_step [OF assms] assms by auto

lemma process_lines_in_step:
  "ruleContent (hook_state l) = currentRuleContent l \<and>
   followUpContent (hook_state l) = currentFollowUpContent l \<Longrightarrow>
   ruleContent (hook_state (process_lines p lines l)) =
     currentRuleContent (process_lines p lines l) \<and>
   followUpContent (hook_state (process_lines p lines l)) =
     currentFollowUpContent (process_lines p lines l)"
proof (induction lines arbitrary: l)
  case Nil
  then show ?case by (simp add: process_lines_def)
next
  case (Cons line lines)
  from Cons.IH [OF process_line_in_step [OF Cons.prems, of p line]]
  show ?case by (simp add: process_lines_def)
qed

lemma loop_init_in_step:
  "ruleContent (hook_state (loop_init (begin_generation prev))) =
     currentRuleContent (loop_init (begin_generation prev)) \<and>
   followUpContent (hook_state (loop_init (begin_generation prev))) =
     currentFollowUpContent (loop_init (begin_generation prev))"
  by (simp add: loop_init_def begin_generation_def)

lemma js_trim_data: "js_trim (''data: '' @ j) \<noteq> []"
  by (simp add: js_trim_def dropWhile_eq_Nil_conv is_ws_def)

lemma process_line_data:
  "process_line p (''data: '' @ j) l = fst (try_chunk p j l)"
  using js_trim_data [of j]
  by (simp add: process_line_def startsWith_def split: prod.splits option.splits)


lemma process_line_syntax_error:
  "p j = None \<Longrightarrow> process_line p (''data: '' @ j) l = l"
  unfolding process_line_data by (simp add: try_chunk_def)

lemmas run_defs =
  generateRule_def streamed_def parse_table_def read_loop.simps process_fragment_def
  decode_fragment_def process_line_def try_chunk_def apply_chunk_def js_trim_def is_ws_def
  startsWith_def truthy_def or_else_def LF_def Let_def loop_init_def begin_generation_def
  initial_state_def build_result_def no_options_def chunk_of_type_def
  rule_content_chunk_def follow_up_content_chunk_def phase_start_chunk_def
  phase_end_chunk_def error_chunk_def

section \<open>Runs of generateRule\<close>

text \<open>
  Claim C1. The stream delivers a content chunk and then the event
  \<^verbatim>\<open>error{errorText:"boom"}\<close>. The event is applied to the hook state (\<open>error\<close> holds
  the text, \<open>isGenerating\<close> is false), but the \<^verbatim>\<open>Error\<close> thrown at line 182 is caught
  by the \<^verbatim>\<open>catch\<close> of line 184, so the loop runs to the end of the stream and the call
  resolves with the accumulated content instead of rejecting with the message.
\<close>

theorem error_event_is_swallowed:
  \<open>generateRule
      (parse_table
        [(''{"type":"rule-content","content":"# Title"}'', rule_content_chunk ''# Title''),
         (''{"type":"error","errorText":"boom"}'', error_chunk ''boom'')])
      0 no_options
      (streamed [''data: {"type":"rule-content","content":"# Title"}'' @ [LF],
                 ''data: {"type":"error","errorText":"boom"}'' @ [LF]])
      initial_state
    = (\<lparr>isGenerating = False, isStreamingRule = False, isStreamingFollowUp = False,
        currentPhase = Idle, ruleContent = ''# Title'', followUpContent = [],
        error = Some ''boom'', metadata = None\<rparr>,
       Inr \<lparr>res_ruleContent = ''# Title'', followUpMessage = [],
            res_ruleType = PROJECT_RULE, res_fileName = ''generated-rule'',
            res_metadata = \<lparr>generatedAt = 0, model = ''llama-3.3-70b-versatile'',
                            provider = ''groq''\<rparr>\<rparr>)\<close>
  by (simp add: run_defs)

text \<open>
  Claim C2, as stated, fails: a stream that ends after a single content chunk, with no
  terminal event, makes the call resolve with the accumulated content.
\<close>

theorem stream_without_terminal_event_counterexample:
  \<open>generateRule
      (parse_table [(''{"type":"rule-content","content":"abc"}'', rule_content_chunk ''abc'')])
      0 no_options
      (streamed [''data: {"type":"rule-content","content":"abc"}'' @ [LF]])
      initial_state
    = (\<lparr>isGenerating = True, isStreamingRule = False, isStreamingFollowUp = False,
        currentPhase = RuleGeneration, ruleContent = ''abc'', followUpContent = [],
        error = None, metadata = None\<rparr>,
       Inr \<lparr>res_ruleContent = ''abc'', followUpMessage = [],
            res_ruleType = PROJECT_RULE, res_fileName = ''generated-rule'',
            res_metadata = \<lparr>generatedAt = 0, model = ''llama-3.3-70b-versatile'',
                            provider = ''groq''\<rparr>\<rparr>)\<close>
  by (simp add: run_defs)

lemma process_line_chunk:
  "process_line p line l =
     (case line_chunk p line of None \<Rightarrow> l | Some c \<Rightarrow> fst (apply_chunk c l))"
  by (simp add: process_line_def line_chunk_def try_chunk_def split: option.splits prod.splits)

lemma process_lines_chunks:
  "process_lines p lines l = apply_chunks (List.map_filter (line_chunk p) lines) l"
  unfolding process_lines_def apply_chunks_def
  by (induction lines arbitrary: l)
     (simp_all add: process_line_chunk map_filter_simps split: option.splits)

lemma apply_chunk_accumulates:
  "currentRuleContent (fst (apply_chunk c l)) =
     accumulate ''rule-content'' ''rule-generation'' (currentRuleContent l) c"
  "currentFollowUpContent (fst (apply_chunk c l)) =
     accumulate ''follow-up-content'' ''follow-up-message'' (currentFollowUpContent l) c"
  by (auto simp: apply_chunk_def accumulate_def truthy_def or_else_def Let_def
      split: option.splits)

lemma apply_chunks_accumulate:
  "currentRuleContent (apply_chunks cs l) =
     foldl (accumulate ''rule-content'' ''rule-generation'') (currentRuleContent l) cs"
  "currentFollowUpContent (apply_chunks cs l) =
     foldl (accumulate ''follow-up-content'' ''follow-up-message'') (currentFollowUpContent l) cs"
  unfolding apply_chunks_def
  by (induction cs arbitrary: l) (simp_all add: apply_chunk_accumulates)

text \<open>
  Claim C2, amended. Take a successful response whose reads all deliver fragments and
  whose stream ends without a terminal event: none of the chunks handed to the switch is
  an \<^verbatim>\<open>error\<close>, a \<^verbatim>\<open>done\<close> or the \<^verbatim>\<open>phase-end\<close> of the follow-up phase. Then
  \<^verbatim>\<open>generateRule\<close> resolves rather than rejects. The rule content and the follow-up
  message of the result are the contents accumulated from the chunks of the stream:
  each content chunk appended in order, the rule content replaced by a non-empty final
  content of \<^verbatim>\<open>phase-end(rule-generation)\<close>. The hook state holds the same two contents.
\<close>

theorem generateRule_resolves_at_stream_end:
  assumes "ok r" and "body r = Some (map Fragment fs)"
      and "\<forall>c \<in> set (stream_chunks p fs). \<not> is_terminal c"
  shows "\<exists>res. snd (generateRule p now req (Fetched r) prev) = Inr res
           \<and> res_ruleContent res =
               accumulated ''rule-content'' ''rule-generation'' (stream_chunks p fs)
           \<and> followUpMessage res =
               accumulated ''follow-up-content'' ''follow-up-message'' (stream_chunks p fs)
           \<and> ruleContent (fst (generateRule p now req (Fetched r) prev)) = res_ruleContent res
           \<and> followUpContent (fst (generateRule p now req (Fetched r) prev)) =
               followUpMessage res"
proof -
  let ?init = "loop_init (begin_generation prev)"
  let ?l = "process_lines p (fst (decode_all [] fs)) ?init"
  have g: "generateRule p now req (Fetched r) prev = (hook_state ?l, Inr (build_result now req ?l))"
    using assms(1,2) read_loop_fragments [of p fs ?init]
    by (simp add: generateRule_def Let_def build_result_buffer loop_init_def)
  have s: "ruleContent (hook_state ?l) = currentRuleContent ?l \<and>
        followUpContent (hook_state ?l) = currentFollowUpContent ?l"
    by (rule process_lines_in_step [OF loop_init_in_step])
  have c: "?l = apply_chunks (stream_chunks p fs) ?init"
    by (simp add: process_lines_chunks stream_chunks_def)
  have "currentRuleContent ?l =
          accumulated ''rule-content'' ''rule-generation'' (stream_chunks p fs)"
    and "currentFollowUpContent ?l =
          accumulated ''follow-up-content'' ''follow-up-message'' (stream_chunks p fs)"
    unfolding c by (simp_all add: apply_chunks_accumulate accumulated_def loop_init_def)
  with s show ?thesis
    by (simp add: g build_result_def)
qed

theorem generateRule_resolves_at_stream_end_witness:
  \<open>ok \<lparr>ok = True, status = 200, statusText = ''OK'',
        body = Some (map Fragment [''data: {"type":"rule-content","content":"abc"}'' @ [LF]])\<rparr>
   \<and> stream_chunks
        (parse_table [(''{"type":"rule-content","content":"abc"}'', rule_content_chunk ''abc'')])
        [''data: {"type":"rule-content","content":"abc"}'' @ [LF]] = [rule_content_chunk ''abc'']
   \<and> \<not> is_terminal (rule_content_chunk ''abc'')
   \<and> (\<exists>res. snd (generateRule
          (parse_table [(''{"type":"rule-content","content":"abc"}'', rule_content_chunk ''abc'')])
          0 no_options
          (Fetched \<lparr>ok = True, status = 200, statusText = ''OK'',
             body = Some (map Fragment [''data: {"type":"rule-content","content":"abc"}'' @ [LF]])\<rparr>)
          initial_state) = Inr res \<and> res_ruleContent res = ''abc'')\<close>
proof -
  let ?p = \<open>parse_table [(''{"type":"rule-content","content":"abc"}'', rule_content_chunk ''abc'')]\<close>
  let ?fs = \<open>[''data: {"type":"rule-content","content":"abc"}'' @ [LF]]\<close>
  let ?r = "\<lparr>ok = True, status = 200, statusText = ''OK'', body = Some (map Fragment ?fs)\<rparr>"
  have 1: "ok ?r" by simp
  have 2: "body ?r = Some (map Fragment ?fs)" by simp
  have 3: "stream_chunks ?p ?fs = [rule_content_chunk ''abc'']"
    by (simp add: stream_chunks_def decode_fragment_def line_chunk_def js_trim_def is_ws_def
        startsWith_def parse_table_def map_filter_simps LF_def)
  have 4: "\<not> is_terminal (rule_content_chunk ''abc'')"
    by (simp add: is_terminal_def rule_content_chunk_def chunk_of_type_def)
  from 3 4 have 5: "\<forall>c \<in> set (stream_chunks ?p ?fs). \<not> is_terminal c" by simp
  have 6: "accumulated ''rule-content'' ''rule-generation'' [rule_content_chunk ''abc''] = ''abc''"
    by (simp add: accumulated_def accumulate_def rule_content_chunk_def chunk_of_type_def)
  from generateRule_resolves_at_stream_end [of ?r ?fs ?p 0 no_options initial_state, OF 1 2 5]
  obtain res where "snd (generateRule ?p 0 no_options (Fetched ?r) initial_state) = Inr res"
    and "res_ruleContent res = accumulated ''rule-content'' ''rule-generation'' (stream_chunks ?p ?fs)"
    by blast
  with 3 6 have "\<exists>res. snd (generateRule ?p 0 no_options (Fetched ?r) initial_state) = Inr res
      \<and> res_ruleContent res = ''abc''" by simp
  with 1 3 4 show ?thesis by blast
qed

section \<open>Single events\<close>

text \<open>
  Claim C3, as stated, fails: after the content \<open>abc\<close> has been accumulated, a
  \<^verbatim>\<open>phase-end(rule-generation)\<close> that supplies the empty string as final content leaves
  the rule content \<open>abc\<close>.
\<close>

theorem phase_end_empty_final_content_counterexample:
  "ruleContent (hook_state (apply_chunks
      [rule_content_chunk ''abc'', phase_end_chunk ''rule-generation'' (Some [])]
      (loop_init (begin_generation initial_state)))) = ''abc''"
  by (simp add: apply_chunks_def run_defs)

text \<open>
  Claim C3, amended. In every state reached inside a call and for every \<^verbatim>\<open>phase-end\<close>
  event: for the rule-generation phase the rule content becomes the event's final
  content when one is supplied and is not empty, and stays the accumulated rule content
  when none is supplied or it is the empty string; \<open>isStreamingRule\<close> becomes false. The
  same holds of the follow-up content and \<open>isStreamingFollowUp\<close> for the
  follow-up-message phase.
\<close>

theorem phase_end_settles_content:
  assumes "l = process_lines p lines (loop_init (begin_generation prev))"
      and "chunk_type c = ''phase-end''"
  shows "(chunk_phase c = Some ''rule-generation'' \<longrightarrow>
            ruleContent (hook_state (fst (apply_chunk c l))) =
              (case finalContent c of
                 None \<Rightarrow> ruleContent (hook_state l)
               | Some final \<Rightarrow> if final = [] then ruleContent (hook_state l) else final)
            \<and> \<not> isStreamingRule (hook_state (fst (apply_chunk c l))))
       \<and> (chunk_phase c = Some ''follow-up-message'' \<longrightarrow>
            followUpContent (hook_state (fst (apply_chunk c l))) =
              (case finalContent c of
                 None \<Rightarrow> followUpContent (hook_state l)
               | Some final \<Rightarrow> if final = [] then followUpContent (hook_state l) else final)
            \<and> \<not> isStreamingFollowUp (hook_state (fst (apply_chunk c l))))"
proof -
  have "ruleContent (hook_state l) = currentRuleContent l \<and>
        followUpContent (hook_state l) = currentFollowUpContent l"
    unfolding assms(1) by (rule process_lines_in_step [OF loop_init_in_step])
  with assms(2) show ?thesis
    by (simp add: apply_chunk_def or_else_def Let_def split: option.splits)
qed

theorem phase_end_settles_content_witness:
  \<open>ruleContent (hook_state (fst (apply_chunk
       (phase_end_chunk ''rule-generation'' (Some ''# Title''))
       (process_lines
          (parse_table [(''{"type":"rule-content","content":"abc"}'', rule_content_chunk ''abc'')])
          [''data: {"type":"rule-content","content":"abc"}'']
          (loop_init (begin_generation initial_state)))))) = ''# Title''
   \<and> \<not> isStreamingRule (hook_state (fst (apply_chunk
       (phase_end_chunk ''rule-generation'' (Some ''# Title''))
       (process_lines
          (parse_table [(''{"type":"rule-content","content":"abc"}'', rule_content_chunk ''abc'')])
          [''data: {"type":"rule-content","content":"abc"}'']
          (loop_init (begin_generation initial_state))))))\<close>
  using phase_end_settles_content
    [OF refl, of \<open>phase_end_chunk ''rule-generation'' (Some ''# Title'')\<close>
       \<open>parse_table [(''{"type":"rule-content","content":"abc"}'', rule_content_chunk ''abc'')]\<close>
       \<open>[''data: {"type":"rule-content","content":"abc"}'']\<close> initial_state]
  by (simp add: phase_end_chunk_def chunk_of_type_def)

text \<open>
  Claim C8, as stated, fails: a \<^verbatim>\<open>phase-start(rule-generation)\<close> applied after the
  content \<open>abc\<close> has been accumulated leaves the rule content \<open>abc\<close>.
\<close>

theorem phase_start_keeps_content_counterexample:
  "ruleContent (hook_state (apply_chunks
      [rule_content_chunk ''abc'', phase_start_chunk ''rule-generation'' None]
      (loop_init (begin_generation initial_state)))) = ''abc''"
  by (simp add: apply_chunks_def run_defs)

text \<open>
  Claim C8, amended. In every state, a \<^verbatim>\<open>phase-start(rule-generation)\<close> event sets
  \<open>isStreamingRule\<close>, sets the phase to rule-generation and stores the event's metadata;
  it leaves the rule content, the follow-up content and the error as they are. These
  three are reset by the update that \<^verbatim>\<open>generateRule\<close> queues when it is called, so an
  event applied first in a call finds them empty.
\<close>

theorem phase_start_rule_generation:
  assumes "chunk_type c = ''phase-start''" and "chunk_phase c = Some ''rule-generation''"
  shows "isStreamingRule (hook_state (fst (apply_chunk c l)))
       \<and> currentPhase (hook_state (fst (apply_chunk c l))) = RuleGeneration
       \<and> metadata (hook_state (fst (apply_chunk c l))) = chunk_metadata c
       \<and> ruleContent (hook_state (fst (apply_chunk c l))) = ruleContent (hook_state l)
       \<and> followUpContent (hook_state (fst (apply_chunk c l))) = followUpContent (hook_state l)
       \<and> error (hook_state (fst (apply_chunk c l))) = error (hook_state l)
       \<and> ruleContent (begin_generation prev) = []
       \<and> followUpContent (begin_generation prev) = []
       \<and> error (begin_generation prev) = None
       \<and> hook_state (fst (apply_chunk c (loop_init (begin_generation prev)))) =
           prev\<lparr>isGenerating := True, isStreamingRule := True, currentPhase := RuleGeneration,
                ruleContent := [], followUpContent := [], error := None,
                metadata := chunk_metadata c\<rparr>"
  using assms by (simp add: apply_chunk_def begin_generation_def loop_init_def)

theorem phase_start_rule_generation_witness:
  "chunk_type (phase_start_chunk ''rule-generation'' None) = ''phase-start''
   \<and> chunk_phase (phase_start_chunk ''rule-generation'' None) = Some ''rule-generation''
   \<and> isStreamingRule (hook_state (fst (apply_chunk (phase_start_chunk ''rule-generation'' None)
        (loop_init (begin_generation initial_state)))))
   \<and> ruleContent (hook_state (fst (apply_chunk (phase_start_chunk ''rule-generation'' None)
        (loop_init (begin_generation initial_state))))) = []"
proof -
  have 1: "chunk_type (phase_start_chunk ''rule-generation'' None) = ''phase-start''"
    and 2: "chunk_phase (phase_start_chunk ''rule-generation'' None) = Some ''rule-generation''"
    by (simp_all add: phase_start_chunk_def chunk_of_type_def)
  from phase_start_rule_generation [OF 1 2, of "loop_init (begin_generation initial_state)" initial_state]
    1 2 show ?thesis
    by (simp add: loop_init_def begin_generation_def)
qed

section \<open>A malformed line between two content chunks\<close>





section \<open>The phase ordering\<close>

lemma coupled_step:
  assumes "coupled q (hook_state l)" and "producer_step q c = Some q'"
  shows "coupled q' (hook_state (fst (apply_chunk c l)))"
proof (cases q)
  case PIdle
  with assms show ?thesis
    by (auto simp: coupled_def producer_step_def apply_chunk_def Let_def split: if_splits)
next
  case PRuleGeneration
  with assms show ?thesis
    by (auto simp: coupled_def producer_step_def apply_chunk_def Let_def split: if_splits)
next
  case PRuleEnded
  with assms show ?thesis
    by (auto simp: coupled_def producer_step_def apply_chunk_def Let_def split: if_splits)
next
  case PFollowUp
  with assms show ?thesis
    by (auto simp: coupled_def producer_step_def apply_chunk_def Let_def split: if_splits)
next
  case PCompleted
  with assms show ?thesis by (simp add: producer_step_def)
next
  case PErrored
  with assms show ?thesis by (simp add: producer_step_def)
qed

lemma coupled_run:
  "coupled q (hook_state l) \<Longrightarrow> producer_run q cs = Some q' \<Longrightarrow>
   coupled q' (hook_state (apply_chunks cs l))"
proof (induction cs arbitrary: q l)
  case Nil
  then show ?case by (simp add: apply_chunks_def)
next
  case (Cons c cs)
  from Cons.prems(2) obtain q1 where s: "producer_step q c = Some q1"
    and r: "producer_run q1 cs = Some q'"
    by (auto split: option.splits)
  from Cons.IH [OF coupled_step [OF Cons.prems(1) s] r]
  show ?case by (simp add: apply_chunks_def)
qed

lemma producer_run_append:
  "producer_run q (xs @ ys) =
     (case producer_run q xs of None \<Rightarrow> None | Some q1 \<Rightarrow> producer_run q1 ys)"
  by (induction xs arbitrary: q) (auto split: option.splits)

lemma producer_run_take:
  assumes "producer_run q cs \<noteq> None"
  shows "\<exists>q1. producer_run q (take k cs) = Some q1
           \<and> (k < length cs \<longrightarrow> producer_step q1 (cs ! k) \<noteq> None)"
proof -
  have "producer_run q (take k cs @ drop k cs) \<noteq> None" using assms by simp
  then obtain q1 where t: "producer_run q (take k cs) = Some q1"
    and d: "producer_run q1 (drop k cs) \<noteq> None"
    unfolding producer_run_append by (auto split: option.splits)
  have "k < length cs \<longrightarrow> producer_step q1 (cs ! k) \<noteq> None"
  proof
    assume "k < length cs"
    then have "drop k cs = cs ! k # drop (Suc k) cs" by (simp add: Cons_nth_drop_Suc)
    with d show "producer_step q1 (cs ! k) \<noteq> None" by (auto split: option.splits)
  qed
  with t show ?thesis by blast
qed

lemma coupled_one_stream: "coupled q s \<Longrightarrow> \<not> (isStreamingRule s \<and> isStreamingFollowUp s)"
  by (cases q) (auto simp: coupled_def)

lemma follow_up_content_state:
  "producer_step q c \<noteq> None \<Longrightarrow> chunk_type c = ''follow-up-content'' \<Longrightarrow> q = PFollowUp"
  by (auto simp: producer_step_def split: if_splits)

lemma run_to_rule_ended:
  "producer_run PIdle xs = Some PRuleEnded \<Longrightarrow>
   xs \<noteq> [] \<and> chunk_type (last xs) = ''phase-end'' \<and> chunk_phase (last xs) = Some ''rule-generation''"
proof (induction xs rule: rev_induct)
  case Nil
  then show ?case by simp
next
  case (snoc c xs)
  then show ?case
    by (auto simp: producer_run_append producer_step_def split: option.splits if_splits)
qed

lemma run_to_follow_up:
  "producer_run PIdle xs = Some PFollowUp \<Longrightarrow>
   \<exists>j. Suc j < length xs
      \<and> chunk_type (xs ! j) = ''phase-end'' \<and> chunk_phase (xs ! j) = Some ''rule-generation''
      \<and> chunk_type (xs ! Suc j) = ''phase-start''
      \<and> chunk_phase (xs ! Suc j) = Some ''follow-up-message''"
proof (induction xs rule: rev_induct)
  case Nil
  then show ?case by simp
next
  case (snoc c xs)
  from snoc.prems obtain q where r: "producer_run PIdle xs = Some q"
    and s: "producer_step q c = Some PFollowUp"
    by (auto simp: producer_run_append split: option.splits)
  from s have "q = PFollowUp \<or>
      (q = PRuleEnded \<and> chunk_type c = ''phase-start'' \<and> chunk_phase c = Some ''follow-up-message'')"
    by (auto simp: producer_step_def split: if_splits)
  then show ?case
  proof
    assume "q = PFollowUp"
    with r snoc.IH obtain j where j: "Suc j < length xs"
      "chunk_type (xs ! j) = ''phase-end''" "chunk_phase (xs ! j) = Some ''rule-generation''"
      "chunk_type (xs ! Suc j) = ''phase-start''"
      "chunk_phase (xs ! Suc j) = Some ''follow-up-message''"
      by blast
    then have "Suc j < length (xs @ [c])" by simp
    moreover from j have "(xs @ [c]) ! j = xs ! j" "(xs @ [c]) ! Suc j = xs ! Suc j"
      by (simp_all add: nth_append)
    ultimately show ?thesis using j by metis
  next
    assume a: "q = PRuleEnded \<and> chunk_type c = ''phase-start''
               \<and> chunk_phase c = Some ''follow-up-message''"
    with r run_to_rule_ended [of xs] have x: "xs \<noteq> []" "chunk_type (last xs) = ''phase-end''"
      "chunk_phase (last xs) = Some ''rule-generation''" by simp_all
    let ?j = "length xs - 1"
    from x(1) have l: "Suc ?j = length xs" by (cases xs) simp_all
    then have 1: "Suc ?j < length (xs @ [c])" by simp
    from x(1) l have 2: "(xs @ [c]) ! ?j = last xs"
      by (simp add: nth_append last_conv_nth)
    from l have 3: "(xs @ [c]) ! Suc ?j = c" by (simp add: nth_append)
    show ?thesis
      using 1 2 3 x a by metis
  qed
qed

text \<open>
  Claim C9. Take any event sequence the producer's phase state machine can emit, and
  apply it from a state in which neither phase is streaming (the idle state, or the
  state at the start of a call). Then after every prefix at most one of
  \<open>isStreamingRule\<close> and \<open>isStreamingFollowUp\<close> holds; and whenever a
  \<^verbatim>\<open>follow-up-content\<close> event is applied, the phase is follow-up-message, not
  rule-generation, and a \<^verbatim>\<open>phase-end(rule-generation)\<close> immediately followed by a
  \<^verbatim>\<open>phase-start(follow-up-message)\<close> lies before it in the sequence.
\<close>

theorem phase_ordering_invariant:
  assumes "producer_valid cs"
      and "\<not> isStreamingRule (hook_state l)" and "\<not> isStreamingFollowUp (hook_state l)"
  shows "(\<forall>k \<le> length cs.
            \<not> (isStreamingRule (hook_state (apply_chunks (take k cs) l))
               \<and> isStreamingFollowUp (hook_state (apply_chunks (take k cs) l))))
       \<and> (\<forall>k < length cs. chunk_type (cs ! k) = ''follow-up-content'' \<longrightarrow>
            currentPhase (hook_state (apply_chunks (take k cs) l)) = FollowUpMessage
            \<and> (\<exists>j. Suc j < k
                  \<and> chunk_type (cs ! j) = ''phase-end''
                  \<and> chunk_phase (cs ! j) = Some ''rule-generation''
                  \<and> chunk_type (cs ! Suc j) = ''phase-start''
                  \<and> chunk_phase (cs ! Suc j) = Some ''follow-up-message''))"
proof -
  have v: "producer_run PIdle cs \<noteq> None" using assms(1) by (simp add: producer_valid_def)
  have c0: "coupled PIdle (hook_state l)" using assms(2,3) by (simp add: coupled_def)
  have one: "\<not> (isStreamingRule (hook_state (apply_chunks (take k cs) l))
               \<and> isStreamingFollowUp (hook_state (apply_chunks (take k cs) l)))" for k
  proof -
    from producer_run_take [OF v, of k] obtain q1
      where "producer_run PIdle (take k cs) = Some q1" by blast
    from coupled_one_stream [OF coupled_run [OF c0 this]] show ?thesis .
  qed
  have two: "currentPhase (hook_state (apply_chunks (take k cs) l)) = FollowUpMessage
            \<and> (\<exists>j. Suc j < k
                  \<and> chunk_type (cs ! j) = ''phase-end''
                  \<and> chunk_phase (cs ! j) = Some ''rule-generation''
                  \<and> chunk_type (cs ! Suc j) = ''phase-start''
                  \<and> chunk_phase (cs ! Suc j) = Some ''follow-up-message'')"
    if k: "k < length cs" and f: "chunk_type (cs ! k) = ''follow-up-content''" for k
  proof -
    from producer_run_take [OF v, of k] k obtain q1
      where r: "producer_run PIdle (take k cs) = Some q1"
        and s: "producer_step q1 (cs ! k) \<noteq> None" by blast
    from follow_up_content_state [OF s f] have q: "q1 = PFollowUp" .
    from coupled_run [OF c0 r] q
    have p: "currentPhase (hook_state (apply_chunks (take k cs) l)) = FollowUpMessage"
      by (simp add: coupled_def)
    from run_to_follow_up [of "take k cs"] r q obtain j where j: "Suc j < length (take k cs)"
      "chunk_type (take k cs ! j) = ''phase-end''"
      "chunk_phase (take k cs ! j) = Some ''rule-generation''"
      "chunk_type (take k cs ! Suc j) = ''phase-start''"
      "chunk_phase (take k cs ! Suc j) = Some ''follow-up-message''"
      by blast
    from j(1) have jk: "Suc j < k" by simp
    then have "take k cs ! j = cs ! j" "take k cs ! Suc j = cs ! Suc j" by simp_all
    with j jk p show ?thesis by metis
  qed
  from one two show ?thesis by blast
qed

theorem phase_ordering_invariant_witness:
  "producer_valid complete_run
   \<and> \<not> isStreamingRule (hook_state (loop_init (begin_generation initial_state)))
   \<and> \<not> isStreamingFollowUp (hook_state (loop_init (begin_generation initial_state)))
   \<and> chunk_type (complete_run ! 4) = ''follow-up-content''
   \<and> currentPhase (hook_state (apply_chunks (take 4 complete_run)
         (loop_init (begin_generation initial_state)))) = FollowUpMessage
   \<and> \<not> (isStreamingRule (hook_state (apply_chunks (take 4 complete_run)
           (loop_init (begin_generation initial_state))))
        \<and> isStreamingFollowUp (hook_state (apply_chunks (take 4 complete_run)
           (loop_init (begin_generation initial_state)))))"
proof -
  let ?l = "loop_init (begin_generation initial_state)"
  have v: "producer_valid complete_run"
    by (simp add: producer_valid_def complete_run_def producer_step_def phase_start_chunk_def
        rule_content_chunk_def phase_end_chunk_def follow_up_content_chunk_def chunk_of_type_def)
  have r: "\<not> isStreamingRule (hook_state ?l)" and f: "\<not> isStreamingFollowUp (hook_state ?l)"
    by (simp_all add: loop_init_def begin_generation_def initial_state_def)
  have n: "(4::nat) < length complete_run" and e: "chunk_type (complete_run ! 4) = ''follow-up-content''"
    by (simp_all add: complete_run_def follow_up_content_chunk_def chunk_of_type_def)
  note t = phase_ordering_invariant [OF v r f]
  from t n have "\<not> (isStreamingRule (hook_state (apply_chunks (take 4 complete_run) ?l))
        \<and> isStreamingFollowUp (hook_state (apply_chunks (take 4 complete_run) ?l)))"
    by (metis less_imp_le_nat)
  moreover from t n e
  have "currentPhase (hook_state (apply_chunks (take 4 complete_run) ?l)) = FollowUpMessage"
    by blast
  ultimately show ?thesis using v r f e by blast
qed

section \<open>The completion gate and the dedup guard\<close>

lemma streaming_not_done: "isStreaming m \<Longrightarrow> \<not> isDone m"
  by (auto simp: isStreaming_def isDone_def list_ex_iff list_all_iff
      split: option.splits ui_part.splits)

lemma monitor_skips_streaming:
  "chatMessages \<noteq> [] \<Longrightarrow> isStreaming (last chatMessages) \<Longrightarrow>
   monitor_messages p chatMessages ps = ps"
  by (simp add: monitor_messages_def Let_def streaming_not_done)

lemma monitor_skips_processed:
  "chatMessages \<noteq> [] \<Longrightarrow> msg_id (last chatMessages) \<in> processedMessageIds ps \<Longrightarrow>
   monitor_messages p chatMessages ps = ps"
  by (simp add: monitor_messages_def Let_def)

lemma monitor_admits:
  assumes "chatMessages \<noteq> []" "msg_role (last chatMessages) = Assistant"
      and "isDone (last chatMessages)" "msg_id (last chatMessages) \<notin> processedMessageIds ps"
  shows "monitor_messages p chatMessages ps =
     ps\<lparr>processedMessageIds := insert (msg_id (last chatMessages)) (processedMessageIds ps),
        pendingEvents := pendingEvents ps @ parse_message p (last chatMessages),
        eventOnlyMessageIds :=
          (if parse_message p (last chatMessages) \<noteq> []
           then insert (msg_id (last chatMessages)) (eventOnlyMessageIds ps)
           else eventOnlyMessageIds ps)\<rparr>"
proof -
  from assms(3) obtain parts where "msg_parts (last chatMessages) = Some parts"
    by (auto simp: isDone_def split: option.splits)
  with assms show ?thesis
    by (simp add: monitor_messages_def Let_def)
qed

lemma monitor_all_streaming:
  "\<forall>ms \<in> set snapshots. ms \<noteq> [] \<and> isStreaming (last ms) \<Longrightarrow>
   monitor_all p snapshots ps = ps"
  unfolding monitor_all_def
  by (induction snapshots) (simp_all add: monitor_skips_streaming)

lemma monitor_all_processed:
  "\<forall>ms \<in> set snapshots. ms \<noteq> [] \<and> msg_id (last ms) \<in> processedMessageIds ps \<Longrightarrow>
   monitor_all p snapshots ps = ps"
  unfolding monitor_all_def
  by (induction snapshots) (simp_all add: monitor_skips_processed)

lemma monitor_all_append:
  "monitor_all p (xs @ ys) ps = monitor_all p ys (monitor_all p xs ps)"
  by (simp add: monitor_all_def)

text \<open>
  What the gate does achieve. Let the last chat message be an assistant message that the
  monitor sees in a series of renders: first any number of times with a text part still
  streaming, then with every text part done (its id not processed before), then any
  number of times again under the same id. While a part is streaming the monitor changes
  nothing, whatever the parser would return: the text is not handed to it. Over the
  whole series the events parsed from the settled message are appended to the pending
  events exactly once, and the id is recorded.
\<close>

lemma gate_parses_once_when_first_settled:
  assumes "\<forall>ms \<in> set before. ms \<noteq> [] \<and> isStreaming (last ms)"
      and "chatMessages \<noteq> []" and "msg_role (last chatMessages) = Assistant"
      and "isDone (last chatMessages)"
      and "msg_id (last chatMessages) \<notin> processedMessageIds ps"
      and "\<forall>ms \<in> set later. ms \<noteq> [] \<and> msg_id (last ms) = msg_id (last chatMessages)"
  shows "monitor_all p before ps = ps
       \<and> monitor_all p (before @ [chatMessages] @ later) ps =
           ps\<lparr>processedMessageIds :=
                 insert (msg_id (last chatMessages)) (processedMessageIds ps),
              pendingEvents := pendingEvents ps @ parse_message p (last chatMessages),
              eventOnlyMessageIds :=
                (if parse_message p (last chatMessages) \<noteq> []
                 then insert (msg_id (last chatMessages)) (eventOnlyMessageIds ps)
                 else eventOnlyMessageIds ps)\<rparr>"
proof -
  let ?ps1 = "monitor_messages p chatMessages ps"
  have b: "monitor_all p before ps = ps"
    by (rule monitor_all_streaming [OF assms(1)])
  have m: "?ps1 =
     ps\<lparr>processedMessageIds := insert (msg_id (last chatMessages)) (processedMessageIds ps),
        pendingEvents := pendingEvents ps @ parse_message p (last chatMessages),
        eventOnlyMessageIds :=
          (if parse_message p (last chatMessages) \<noteq> []
           then insert (msg_id (last chatMessages)) (eventOnlyMessageIds ps)
           else eventOnlyMessageIds ps)\<rparr>"
    by (rule monitor_admits [OF assms(2-5)])
  then have "msg_id (last chatMessages) \<in> processedMessageIds ?ps1" by simp
  with assms(6) have "\<forall>ms \<in> set later. ms \<noteq> [] \<and> msg_id (last ms) \<in> processedMessageIds ?ps1"
    by simp
  then have l: "monitor_all p later ?ps1 = ?ps1"
    by (rule monitor_all_processed)
  have "monitor_all p (before @ [chatMessages] @ later) ps = monitor_all p later ?ps1"
    unfolding monitor_all_append b by (simp add: monitor_all_def)
  with l m b show ?thesis by simp
qed

lemmas panel_defs =
  parse_message_def parse_message_content_def parse_part_def parse_line_def js_trim_def
  is_ws_def is_valid_event_def event_table_def chunk_event_def text_message_def
  isDone_def isStreaming_def truthy_def or_else_def LF_def Let_def initial_panel_def
  event_content_def handleStreamingEvent_def process_pending_def

text \<open>
  Claim C4. The first half holds: a message with a text part in streaming state is
  never handed to the parser (\<open>monitor_skips_streaming\<close>). The second half fails for a
  message that is first seen without any text part: \<^verbatim>\<open>every\<close> of line 358 holds of it,
  so line 376 records its id before there is a text to parse. When the text part has
  arrived and has gone from streaming to done, line 371 returns: the settled text,
  which holds a valid event, is never parsed, and nothing is queued.
\<close>

theorem message_recorded_before_its_text:
  \<open>isDone (assistant_message ''m1'' [OtherPart])
   \<and> isStreaming (assistant_message ''m1''
        [OtherPart, TextPart ''{"event":"chu'' (Some Streaming)])
   \<and> isDone (assistant_message ''m1''
        [OtherPart, TextPart ''{"event":"chunk","payload":{"content":"hi"}}'' (Some Done)])
   \<and> parse_message
        (event_table [(''{"event":"chunk","payload":{"content":"hi"}}'', chunk_event ''hi'')])
        (assistant_message ''m1''
           [OtherPart, TextPart ''{"event":"chunk","payload":{"content":"hi"}}'' (Some Done)])
       = [chunk_event ''hi'']
   \<and> monitor_all
        (event_table [(''{"event":"chunk","payload":{"content":"hi"}}'', chunk_event ''hi'')])
        [[assistant_message ''m1'' [OtherPart]],
         [assistant_message ''m1'' [OtherPart, TextPart ''{"event":"chu'' (Some Streaming)]],
         [assistant_message ''m1''
            [OtherPart, TextPart ''{"event":"chunk","payload":{"content":"hi"}}'' (Some Done)]]]
        initial_panel
       = initial_panel\<lparr>processedMessageIds := {''m1''}\<rparr>\<close>
  by (simp add: monitor_all_def monitor_messages_def assistant_message_def isDone_def
      isStreaming_def parse_message_def parse_message_content_def parse_part_def parse_line_def
      js_trim_def is_ws_def is_valid_event_def event_table_def chunk_event_def truthy_def
      Let_def initial_panel_def LF_def)

section \<open>Events handled by the panel\<close>

lemma handle_keeps_refs:
  "pendingEvents (handleStreamingEvent cap ev ps) = pendingEvents ps \<and>
   processedMessageIds (handleStreamingEvent cap ev ps) = processedMessageIds ps"
  by (simp add: handleStreamingEvent_def)

lemma handle_all_keeps_refs:
  "pendingEvents (foldl (\<lambda>s ev. handleStreamingEvent cap ev s) ps evs) = pendingEvents ps \<and>
   processedMessageIds (foldl (\<lambda>s ev. handleStreamingEvent cap ev s) ps evs) =
     processedMessageIds ps"
  by (induction evs arbitrary: ps) (simp_all add: handle_keeps_refs)

lemma process_pending_refs:
  "pendingEvents (process_pending ps) = [] \<and>
   processedMessageIds (process_pending ps) = processedMessageIds ps"
  by (simp add: process_pending_def handle_all_keeps_refs)

lemma process_pending_idle: "pendingEvents ps = [] \<Longrightarrow> process_pending ps = ps"
  by (simp add: process_pending_def)

lemma render_skips_processed:
  assumes "chatMessages \<noteq> []" "msg_id (last chatMessages) \<in> processedMessageIds ps"
      and "pendingEvents ps = []"
  shows "render p chatMessages ps = ps"
  by (simp add: render_def monitor_skips_processed [OF assms(1,2)] process_pending_idle [OF assms(3)])

lemma renders_skip_processed:
  "\<forall>ms \<in> set snapshots. ms \<noteq> [] \<and> msg_id (last ms) \<in> processedMessageIds ps \<Longrightarrow>
   pendingEvents ps = [] \<Longrightarrow> renders p snapshots ps = ps"
  unfolding renders_def
  by (induction snapshots) (simp_all add: render_skips_processed)

text \<open>
  Claim C5. When a settled assistant message whose id has not been processed is
  presented, the id is recorded and the events parsed from the message are queued and
  handled. Presenting the same id again, any number of times, is skipped: the monitor and
  the whole render leave the panel as it is, so the accumulated rule content is the one
  after the first presentation.
\<close>

theorem dedup_guard_applies_once:
  assumes "chatMessages \<noteq> []" and "msg_role (last chatMessages) = Assistant"
      and "isDone (last chatMessages)"
      and "msg_id (last chatMessages) \<notin> processedMessageIds ps"
      and "\<forall>ms \<in> set again. ms \<noteq> [] \<and> msg_id (last ms) = msg_id (last chatMessages)"
  shows "msg_id (last chatMessages) \<in> processedMessageIds (render p chatMessages ps)
       \<and> pendingEvents (monitor_messages p chatMessages ps) =
           pendingEvents ps @ parse_message p (last chatMessages)
       \<and> monitor_all p again (monitor_messages p chatMessages ps) =
           monitor_messages p chatMessages ps
       \<and> renders p again (render p chatMessages ps) = render p chatMessages ps
       \<and> panel_ruleContent (renders p (chatMessages # again) ps) =
           panel_ruleContent (render p chatMessages ps)"
proof -
  let ?m = "monitor_messages p chatMessages ps"
  let ?r = "render p chatMessages ps"
  have m: "?m =
     ps\<lparr>processedMessageIds := insert (msg_id (last chatMessages)) (processedMessageIds ps),
        pendingEvents := pendingEvents ps @ parse_message p (last chatMessages),
        eventOnlyMessageIds :=
          (if parse_message p (last chatMessages) \<noteq> []
           then insert (msg_id (last chatMessages)) (eventOnlyMessageIds ps)
           else eventOnlyMessageIds ps)\<rparr>"
    by (rule monitor_admits [OF assms(1-4)])
  then have im: "msg_id (last chatMessages) \<in> processedMessageIds ?m" by simp
  then have ir: "msg_id (last chatMessages) \<in> processedMessageIds ?r"
    by (simp add: render_def process_pending_refs)
  have pm: "pendingEvents ?m = pendingEvents ps @ parse_message p (last chatMessages)"
    by (simp add: m)
  from assms(5) im have "\<forall>ms \<in> set again. ms \<noteq> [] \<and> msg_id (last ms) \<in> processedMessageIds ?m"
    by simp
  then have am: "monitor_all p again ?m = ?m" by (rule monitor_all_processed)
  from assms(5) ir have "\<forall>ms \<in> set again. ms \<noteq> [] \<and> msg_id (last ms) \<in> processedMessageIds ?r"
    by simp
  moreover have "pendingEvents ?r = []" by (simp add: render_def process_pending_refs)
  ultimately have ar: "renders p again ?r = ?r" by (rule renders_skip_processed)
  have "renders p (chatMessages # again) ps = renders p again ?r"
    by (simp add: renders_def)
  with ar ir pm am show ?thesis by simp
qed

theorem dedup_guard_applies_once_witness:
  \<open>panel_ruleContent
      (renders
         (event_table [(''{"event":"chunk","payload":{"content":"hi"}}'', chunk_event ''hi'')])
         [[text_message ''m1'' ''{"event":"chunk","payload":{"content":"hi"}}'' Done],
          [text_message ''m1'' ''{"event":"chunk","payload":{"content":"hi"}}'' Done],
          [text_message ''m1'' ''{"event":"chunk","payload":{"content":"hi"}}'' Done]]
         (initial_panel\<lparr>isGeneratingRules := True\<rparr>)) = ''hi''
   \<and> msg_id (text_message ''m1'' ''{"event":"chunk","payload":{"content":"hi"}}'' Done)
       \<notin> processedMessageIds (initial_panel\<lparr>isGeneratingRules := True\<rparr>)\<close>
proof -
  let ?p = \<open>event_table [(''{"event":"chunk","payload":{"content":"hi"}}'', chunk_event ''hi'')]\<close>
  let ?d = \<open>text_message ''m1'' ''{"event":"chunk","payload":{"content":"hi"}}'' Done\<close>
  let ?ps = "initial_panel\<lparr>isGeneratingRules := True\<rparr>"
  have 2: "[?d] \<noteq> []" by simp
  have 3: "msg_role (last [?d]) = Assistant" by (simp add: text_message_def)
  have 4: "isDone (last [?d])" by (simp add: isDone_def text_message_def)
  have 5: "msg_id (last [?d]) \<notin> processedMessageIds ?ps"
    by (simp add: initial_panel_def)
  have 6: "\<forall>ms \<in> set [[?d], [?d]]. ms \<noteq> [] \<and> msg_id (last ms) = msg_id (last [?d])"
    by simp
  have 7: "panel_ruleContent (render ?p [?d] ?ps) = ''hi''"
    by (simp add: render_def monitor_messages_def panel_defs)
  from dedup_guard_applies_once [of "[?d]" ?ps "[[?d], [?d]]" ?p, OF 2 3 4 5 6] 7 5
  show ?thesis by simp
qed

text \<open>
  The guard of the \<^verbatim>\<open>chunk\<close> case: handled while the \<^verbatim>\<open>isGeneratingRules\<close> that the
  handler captured is false, a \<^verbatim>\<open>chunk\<close> event changes nothing.
\<close>

lemma chunk_dropped_under_false_flag:
  assumes "event ev = ''chunk''"
  shows "handleStreamingEvent (False, captured_ruleContent) ev ps = ps
       \<and> (\<not> isGeneratingRules ps \<and> pendingEvents ps = [ev] \<longrightarrow>
            panel_ruleContent (process_pending ps) = panel_ruleContent ps
            \<and> calls (process_pending ps) = calls ps
            \<and> isGeneratingRules (process_pending ps) = isGeneratingRules ps)"
  using assms by (simp add: handleStreamingEvent_def process_pending_def)

text \<open>
  Claim C10. The handler reads the \<^verbatim>\<open>isGeneratingRules\<close> of the render that created it,
  and one handler runs the whole batch of a message (lines 484-489). A first message
  holds a \<^verbatim>\<open>meta\<close> event, so generation is active when a second message is rendered;
  the second message holds a \<^verbatim>\<open>done\<close> event and then a \<^verbatim>\<open>chunk\<close> event. The \<^verbatim>\<open>done\<close>
  event clears the flag, but the chunk that arrives after it still finds the captured
  flag true: its content is appended to the rule content instead of being dropped.
\<close>

theorem chunk_after_done_is_appended:
  \<open>pendingEvents
      (monitor_messages
         (event_table [(''{"event":"meta"}'', bare_event ''meta''),
                       (''{"event":"done"}'', bare_event ''done''),
                       (''{"event":"chunk","payload":{"content":"hi"}}'', chunk_event ''hi'')])
         [text_message ''a'' ''{"event":"meta"}'' Done,
          text_message ''b'' (''{"event":"done"}'' @ [LF]
             @ ''{"event":"chunk","payload":{"content":"hi"}}'') Done]
         (render
            (event_table [(''{"event":"meta"}'', bare_event ''meta''),
                          (''{"event":"done"}'', bare_event ''done''),
                          (''{"event":"chunk","payload":{"content":"hi"}}'', chunk_event ''hi'')])
            [text_message ''a'' ''{"event":"meta"}'' Done]
            initial_panel))
     = [bare_event ''done'', chunk_event ''hi'']
   \<and> panel_ruleContent
      (render
         (event_table [(''{"event":"meta"}'', bare_event ''meta''),
                       (''{"event":"done"}'', bare_event ''done''),
                       (''{"event":"chunk","payload":{"content":"hi"}}'', chunk_event ''hi'')])
         [text_message ''a'' ''{"event":"meta"}'' Done]
         initial_panel) = []
   \<and> panel_ruleContent
      (renders
         (event_table [(''{"event":"meta"}'', bare_event ''meta''),
                       (''{"event":"done"}'', bare_event ''done''),
                       (''{"event":"chunk","payload":{"content":"hi"}}'', chunk_event ''hi'')])
         [[text_message ''a'' ''{"event":"meta"}'' Done],
          [text_message ''a'' ''{"event":"meta"}'' Done,
           text_message ''b'' (''{"event":"done"}'' @ [LF]
              @ ''{"event":"chunk","payload":{"content":"hi"}}'') Done]]
         initial_panel) = ''hi''
   \<and> handleStreamingEvent (True, [])
        (chunk_event ''hi'')
        (handleStreamingEvent (True, []) (bare_event ''done'')
           (initial_panel\<lparr>isGeneratingRules := True\<rparr>))
     = initial_panel\<lparr>isGeneratingRules := False, panel_ruleContent := ''hi'',
         calls := [OnRuleGenerationEnd, OnRuleGenerationUpdate ''hi'']\<rparr>\<close>
  by (simp add: renders_def render_def monitor_messages_def panel_defs bare_event_def)

section \<open>A malformed line in either consumer\<close>

lemma parse_line_event:
  "js_trim a \<noteq> [] \<Longrightarrow> q (js_trim a) = Some e \<Longrightarrow> event e = ''chunk'' \<Longrightarrow>
   parse_line q a = [e]"
  by (simp add: parse_line_def is_valid_event_def Let_def)







end
